theory Spec2Isabelle
  imports Main
begin

section \<open>JavaScript values, errors and the runtime\<close>

text \<open>
  The server (\<^verbatim>\<open>src/server.js\<close>) handles untyped data: the \<^verbatim>\<open>arguments\<close> member of a
  request body and the \<^verbatim>\<open>data\<close> of an upstream response are whatever JSON was sent.
  They are modelled by one datatype of JSON-like values. Numbers are the integers (page sizes,
  counts, identifiers and status codes are the numbers this program handles). A string is
  the list of the bytes of its UTF-8 encoding (so a string with a lone surrogate, which has
  no UTF-8 encoding, is outside the model). An object is the list of its own properties
  in order; a property is looked up with \<open>map_of\<close>.
\<close>

datatype js =
    JUndefined
  | JNull
  | JBool bool
  | JNum int
  | JStr string
  | JArr "js list"
  | JObj "(string \<times> js) list"

text \<open>
  Every value thrown in this program is an \<^verbatim>\<open>Error\<close> object: a request error of the upstream
  client, which carries a numeric \<^verbatim>\<open>status\<close>, or a \<^verbatim>\<open>TypeError\<close> raised by the runtime,
  which has no \<^verbatim>\<open>status\<close> property. A computation that may throw returns a sum,
  \<open>Inl\<close> the thrown error.
\<close>

datatype js_error = Error (status: "int option") (message: string)

text \<open>
  What the JavaScript runtime does outside the program text is a parameter of the model:
  the message texts of its \<^verbatim>\<open>TypeError\<close>s, the string conversion of a value that is not
  a string (in a template literal), \<^verbatim>\<open>Buffer.from(v, 'base64').toString('utf-8')\<close> on a
  value that is not a string, and the call of a member inherited from
  \<^verbatim>\<open>Object.prototype\<close>. Every theorem below holds for every runtime.
\<close>

record runtime =
  cannot_read :: "js \<Rightarrow> string \<Rightarrow> string"
  not_a_function :: "string \<Rightarrow> string"
  to_string_other :: "js \<Rightarrow> js_error + string"
  buffer_from_other :: "js \<Rightarrow> js_error + string"
  inherited_call :: "string \<Rightarrow> js \<Rightarrow> js_error + js"

definition type_error :: "string \<Rightarrow> js_error" where
  "type_error m = Error None m"

text \<open>Sequencing of computations that may throw: the first error ends the evaluation.\<close>

definition and_then :: "'e + 'a \<Rightarrow> ('a \<Rightarrow> 'e + 'b) \<Rightarrow> 'e + 'b" where
  "and_then m k = (case m of Inl e \<Rightarrow> Inl e | Inr x \<Rightarrow> k x)"

fun each :: "('a \<Rightarrow> 'e + 'b) \<Rightarrow> 'a list \<Rightarrow> 'e + 'b list" where
  "each f [] = Inr []"
| "each f (x # xs) = and_then (f x) (\<lambda>y. and_then (each f xs) (\<lambda>ys. Inr (y # ys)))"

text \<open>
  \<^verbatim>\<open>v.p\<close> for the property names this program reads, none of which is a built-in property
  of an array, a string, a number or a boolean: reading a property of \<^verbatim>\<open>undefined\<close> or
  \<^verbatim>\<open>null\<close> throws; on every other value the read gives the own property of that name,
  \<^verbatim>\<open>undefined\<close> when there is none.
\<close>

fun nullish :: "js \<Rightarrow> bool" where
  "nullish JUndefined = True"
| "nullish JNull = True"
| "nullish v = False"

fun prop_of :: "js \<Rightarrow> string \<Rightarrow> js" where
  "prop_of (JObj fs) p = (case map_of fs p of Some v \<Rightarrow> v | None \<Rightarrow> JUndefined)"
| "prop_of v p = JUndefined"

definition get_prop :: "runtime \<Rightarrow> js \<Rightarrow> string \<Rightarrow> js_error + js" where
  "get_prop rt v p =
     (if nullish v then Inl (type_error (cannot_read rt v p)) else Inr (prop_of v p))"

text \<open>\<^verbatim>\<open>v.p1.p2...\<close>, read from left to right.\<close>

fun get_path :: "runtime \<Rightarrow> js \<Rightarrow> string list \<Rightarrow> js_error + js" where
  "get_path rt v [] = Inr v"
| "get_path rt v (p # ps) = and_then (get_prop rt v p) (\<lambda>w. get_path rt w ps)"

text \<open>Truthiness, and \<^verbatim>\<open>a || b\<close> on values already evaluated.\<close>

fun truthy :: "js \<Rightarrow> bool" where
  "truthy JUndefined = False"
| "truthy JNull = False"
| "truthy (JBool b) = b"
| "truthy (JNum n) = (n \<noteq> 0)"
| "truthy (JStr s) = (s \<noteq> [])"
| "truthy (JArr xs) = True"
| "truthy (JObj fs) = True"

definition js_or :: "js \<Rightarrow> js \<Rightarrow> js" where
  "js_or a b = (if truthy a then a else b)"

text \<open>The string conversion of a template literal's substitution.\<close>

fun to_string :: "runtime \<Rightarrow> js \<Rightarrow> js_error + string" where
  "to_string rt (JStr s) = Inr s"
| "to_string rt v = to_string_other rt v"

text \<open>
  \<^verbatim>\<open>v.map(f)\<close>, where \<open>expr\<close> is the source text of \<open>v\<close>: only an array has a \<^verbatim>\<open>map\<close>
  method (no value parsed from JSON holds a function), and the callback's first throw ends
  the loop.
\<close>

definition js_map :: "runtime \<Rightarrow> string \<Rightarrow> js \<Rightarrow> (js \<Rightarrow> js_error + js) \<Rightarrow> js_error + js" where
  "js_map rt expr v f =
     (case v of
        JArr xs \<Rightarrow> and_then (each f xs) (\<lambda>ys. Inr (JArr ys))
      | _ \<Rightarrow>
          if nullish v then Inl (type_error (cannot_read rt v ''map''))
          else Inl (type_error (not_a_function rt (expr @ ''.map''))))"

text \<open>
  An object literal: the property values are evaluated in order, and the first throw ends
  the evaluation.
\<close>

fun properties :: "(string \<times> (js_error + js)) list \<Rightarrow> js_error + (string \<times> js) list" where
  "properties [] = Inr []"
| "properties ((k, m) # rest) =
     and_then m (\<lambda>v. and_then (properties rest) (\<lambda>kvs. Inr ((k, v) # kvs)))"

definition object :: "(string \<times> (js_error + js)) list \<Rightarrow> js_error + js" where
  "object props = and_then (properties props) (\<lambda>kvs. Inr (JObj kvs))"

section \<open>Base64 and UTF-8, as \<^verbatim>\<open>Buffer\<close> decodes them\<close>

text \<open>
  \<open>utf8_lead b\<close> is, for the lead byte of a UTF-8 sequence of two to four bytes, the number
  of continuation bytes and the range of the first of them (the others range over 80..BF).
\<close>

definition utf8_lead :: "nat \<Rightarrow> (nat \<times> nat \<times> nat) option" where
  "utf8_lead b =
     (if 0xC2 \<le> b \<and> b \<le> 0xDF then Some (1, 0x80, 0xBF)
      else if 0xE0 \<le> b \<and> b \<le> 0xEF
        then Some (2, if b = 0xE0 then 0xA0 else 0x80, if b = 0xED then 0x9F else 0xBF)
      else if 0xF0 \<le> b \<and> b \<le> 0xF4
        then Some (3, if b = 0xF0 then 0x90 else 0x80, if b = 0xF4 then 0x8F else 0xBF)
      else None)"

definition in_range :: "nat \<Rightarrow> nat \<Rightarrow> char \<Rightarrow> bool" where
  "in_range lo hi c = (lo \<le> of_char c \<and> of_char c \<le> hi)"

text \<open>
  The runtime holds a string as UTF-16 code units, and \<^verbatim>\<open>Buffer.from(s, 'base64')\<close> reads
  them. \<open>utf16_units\<close> gives the code units of a string from its UTF-8 bytes: a character
  below U+10000 is one unit, its code point, and a character from U+10000 is a surrogate
  pair. (A byte that starts no well-formed sequence belongs to no string; it is read as
  U+FFFD.)
\<close>

definition continuation :: "nat \<Rightarrow> nat \<Rightarrow> nat \<Rightarrow> string \<Rightarrow> bool" where
  "continuation n lo hi rest =
     (n \<le> length rest \<and>
      (case take n rest of
         [] \<Rightarrow> True
       | b # bs \<Rightarrow> in_range lo hi b \<and> list_all (in_range 0x80 0xBF) bs))"

definition code_point :: "nat \<Rightarrow> char \<Rightarrow> string \<Rightarrow> nat" where
  "code_point n a bs =
     foldl (\<lambda>acc b. acc * 64 + (of_char b - 0x80))
       (of_char a mod (if n = 1 then 32 else if n = 2 then 16 else 8)) bs"

definition utf16_of :: "nat \<Rightarrow> nat list" where
  "utf16_of cp =
     (if cp < 0x10000 then [cp]
      else [0xD800 + (cp - 0x10000) div 0x400, 0xDC00 + (cp - 0x10000) mod 0x400])"

fun utf16_units :: "string \<Rightarrow> nat list" where
  "utf16_units [] = []"
| "utf16_units (a # rest) =
     (if (of_char a :: nat) < 0x80 then of_char a # utf16_units rest
      else (case utf8_lead (of_char a) of
              Some (n, lo, hi) \<Rightarrow>
                if continuation n lo hi rest
                  then utf16_of (code_point n a (take n rest)) @ utf16_units (drop n rest)
                else 0xFFFD # utf16_units rest
            | None \<Rightarrow> 0xFFFD # utf16_units rest))"

text \<open>
  \<^verbatim>\<open>Buffer.from(s, 'base64')\<close> on a string. The decoder looks at the low eight bits of each
  code unit (so U+0161 reads as \<^verbatim>\<open>a\<close>, 0x61). The standard and the URL-safe alphabet are
  both accepted, a unit outside them is skipped, and decoding stops at the first unit that
  reads as \<^verbatim>\<open>=\<close>. Every four sextets give three bytes; two or three left over give one or
  two, and a single one left over gives none.
\<close>

definition unbase64 :: "nat \<Rightarrow> nat option" where
  "unbase64 n =
     (if 65 \<le> n \<and> n \<le> 90 then Some (n - 65)
      else if 97 \<le> n \<and> n \<le> 122 then Some (n - 71)
      else if 48 \<le> n \<and> n \<le> 57 then Some (n + 4)
      else if n = 43 \<or> n = 45 then Some 62
      else if n = 47 \<or> n = 95 then Some 63
      else None)"

definition base64_sextets :: "nat list \<Rightarrow> nat list" where
  "base64_sextets units =
     List.map_filter unbase64 (takeWhile (\<lambda>c. c \<noteq> 61) (map (\<lambda>u. u mod 256) units))"

fun base64_groups :: "nat list \<Rightarrow> nat list" where
  "base64_groups (a # b # c # d # rest) =
     [a * 4 + b div 16, (b mod 16) * 16 + c div 4, (c mod 4) * 64 + d] @ base64_groups rest"
| "base64_groups [a, b, c] = [a * 4 + b div 16, (b mod 16) * 16 + c div 4]"
| "base64_groups [a, b] = [a * 4 + b div 16]"
| "base64_groups rest = []"

definition base64_decode :: "string \<Rightarrow> string" where
  "base64_decode s = map char_of (base64_groups (base64_sextets (utf16_units s)))"

text \<open>
  \<^verbatim>\<open>buf.toString('utf-8')\<close>: a well-formed sequence is kept, and every maximal ill-formed
  part is replaced by U+FFFD (in UTF-8: EF BF BD).
\<close>

definition replacement :: string where
  "replacement = map char_of [0xEF, 0xBF, 0xBD :: nat]"

fun utf8_scan :: "nat \<Rightarrow> nat \<Rightarrow> nat \<Rightarrow> string \<Rightarrow> string \<Rightarrow> string" where
  "utf8_scan needed lo hi pend [] = (if needed = 0 then [] else replacement)"
| "utf8_scan needed lo hi pend (c # cs) =
     (if needed = 0 then
        (if (of_char c :: nat) < 0x80 then c # utf8_scan 0 0x80 0xBF [] cs
         else (case utf8_lead (of_char c) of
                 Some (n, l, h) \<Rightarrow> utf8_scan n l h [c] cs
               | None \<Rightarrow> replacement @ utf8_scan 0 0x80 0xBF [] cs))
      else if lo \<le> of_char c \<and> of_char c \<le> hi then
        (if needed = 1 then pend @ [c] @ utf8_scan 0 0x80 0xBF [] cs
         else utf8_scan (needed - 1) 0x80 0xBF (pend @ [c]) cs)
      else replacement @ utf8_scan 0 0x80 0xBF [] (c # cs))"

definition utf8_toString :: "string \<Rightarrow> string" where
  "utf8_toString bytes = utf8_scan 0 0x80 0xBF [] bytes"

definition buffer_from_base64 :: "runtime \<Rightarrow> js \<Rightarrow> js_error + string" where
  "buffer_from_base64 rt v =
     (case v of JStr s \<Rightarrow> Inr (utf8_toString (base64_decode s)) | _ \<Rightarrow> buffer_from_other rt v)"

section \<open>The encodings, as their standards define them\<close>

text \<open>
  What decoding yields is stated against the encodings themselves, defined here from
  their standards and not from the decoders above. \<open>base64_encode\<close> is the base64 encoding
  of RFC 4648 with its standard alphabet and padding. \<open>utf8_well_formed\<close> is the Unicode
  standard's table of well-formed UTF-8 byte sequences.
\<close>

definition base64_digit :: "nat \<Rightarrow> char" where
  "base64_digit n =
     (if n < 26 then char_of (n + 65)
      else if n < 52 then char_of (n + 71)
      else if n < 62 then char_of (n - 4)
      else if n = 62 then CHR ''+''
      else CHR ''/'')"

fun base64_encode :: "string \<Rightarrow> string" where
  "base64_encode (a # b # c # rest) =
     [base64_digit (of_char a div 4),
      base64_digit ((of_char a mod 4) * 16 + of_char b div 16),
      base64_digit ((of_char b mod 16) * 4 + of_char c div 64),
      base64_digit (of_char c mod 64)] @ base64_encode rest"
| "base64_encode [a, b] =
     [base64_digit (of_char a div 4),
      base64_digit ((of_char a mod 4) * 16 + of_char b div 16),
      base64_digit ((of_char b mod 16) * 4), CHR ''='']"
| "base64_encode [a] =
     [base64_digit (of_char a div 4), base64_digit ((of_char a mod 4) * 16), CHR ''='', CHR ''='']"
| "base64_encode [] = []"

fun utf8_well_formed :: "string \<Rightarrow> bool" where
  "utf8_well_formed [] = True"
| "utf8_well_formed (a # rest) =
     (if (of_char a :: nat) < 0x80 then utf8_well_formed rest
      else if in_range 0xC2 0xDF a then
        (case rest of
           b # r \<Rightarrow> in_range 0x80 0xBF b \<and> utf8_well_formed r
         | _ \<Rightarrow> False)
      else if in_range 0xE0 0xEF a then
        (case rest of
           b # c # r \<Rightarrow>
             in_range (if of_char a = (0xE0 :: nat) then 0xA0 else 0x80)
               (if of_char a = (0xED :: nat) then 0x9F else 0xBF) b \<and>
             in_range 0x80 0xBF c \<and> utf8_well_formed r
         | _ \<Rightarrow> False)
      else if in_range 0xF0 0xF4 a then
        (case rest of
           b # c # d # r \<Rightarrow>
             in_range (if of_char a = (0xF0 :: nat) then 0x90 else 0x80)
               (if of_char a = (0xF4 :: nat) then 0x8F else 0xBF) b \<and>
             in_range 0x80 0xBF c \<and> in_range 0x80 0xBF d \<and> utf8_well_formed r
         | _ \<Rightarrow> False)
      else False)"

section \<open>The upstream client\<close>

text \<open>
  The calls the adapters make on the upstream client, each with the members of its
  parameter object in source order.
\<close>

datatype request =
    Repos_get js js
  | Issues_listForRepo js js js js
  | Repos_getContent js js js js
  | Search_code js js
  | Repos_listCommits js js js js

text \<open>
  A configured client answers a call with the \<^verbatim>\<open>data\<close> of its response, or rejects with an
  error. The global \<^verbatim>\<open>octokit\<close> is \<open>None\<close> while it is \<^verbatim>\<open>undefined\<close>: it is constructed
  at startup only when \<^verbatim>\<open>GITHUB_TOKEN\<close> is truthy, that is set and not empty.
\<close>

type_synonym client = "request \<Rightarrow> js_error + js"

definition octokit_setup :: "string option \<Rightarrow> (string \<Rightarrow> client) \<Rightarrow> client option" where
  "octokit_setup GITHUB_TOKEN Octokit =
     (case GITHUB_TOKEN of
        None \<Rightarrow> None
      | Some token \<Rightarrow> if token \<noteq> [] then Some (Octokit token) else None)"

text \<open>\<^verbatim>\<open>octokit.rest\<close>: a \<^verbatim>\<open>TypeError\<close> while \<^verbatim>\<open>octokit\<close> is \<^verbatim>\<open>undefined\<close>.\<close>

definition rest :: "runtime \<Rightarrow> client option \<Rightarrow> js_error + client" where
  "rest rt octokit =
     (case octokit of
        None \<Rightarrow> Inl (type_error (cannot_read rt JUndefined ''rest''))
      | Some c \<Rightarrow> Inr c)"

text \<open>
  The run of an adapter's body is its outcome (a returned value, or the error it threw)
  together with the upstream calls it issued, in order. \<open>before_call\<close> sequences what is
  evaluated before the call, \<open>await_call\<close> is the awaited call followed by the rest of
  the \<^verbatim>\<open>try\<close> block.
\<close>

type_synonym run = "(js_error + js) \<times> request list"

definition before_call :: "js_error + 'a \<Rightarrow> ('a \<Rightarrow> run) \<Rightarrow> run" where
  "before_call m k = (case m of Inl e \<Rightarrow> (Inl e, []) | Inr x \<Rightarrow> k x)"

definition await_call :: "client \<Rightarrow> request \<Rightarrow> (js \<Rightarrow> js_error + js) \<Rightarrow> run" where
  "await_call c req k = (case c req of Inl e \<Rightarrow> (Inl e, [req]) | Inr data \<Rightarrow> (k data, [req]))"

section \<open>The error normalizer and the six adapters\<close>

definition handleGitHubError :: "js_error \<Rightarrow> js" where
  "handleGitHubError error =
     (if status error = Some 404 then JObj [(''error'', JStr ''Resource not found'')]
      else if status error = Some 403
        then JObj [(''error'', JStr ''Rate limit exceeded or insufficient permissions'')]
      else JObj [(''error'', JStr (''GitHub API error: '' @ message error))])"

text \<open>\<^verbatim>\<open>try { body } catch (error) { return handleGitHubError(error); }\<close>\<close>

definition try_catch :: "run \<Rightarrow> run" where
  "try_catch body =
     (case body of
        (Inl error, calls) \<Rightarrow> (Inr (handleGitHubError error), calls)
      | (Inr v, calls) \<Rightarrow> (Inr v, calls))"

definition get_repository_info :: "runtime \<Rightarrow> client option \<Rightarrow> js \<Rightarrow> run" where
  "get_repository_info rt octokit args =
     try_catch
      (before_call (rest rt octokit) (\<lambda>c.
       before_call (get_prop rt args ''owner'') (\<lambda>owner.
       before_call (get_prop rt args ''repo'') (\<lambda>repo.
       await_call c (Repos_get owner repo) (\<lambda>data.
         object
           [(''name'', get_prop rt data ''name''),
            (''full_name'', get_prop rt data ''full_name''),
            (''description'', get_prop rt data ''description''),
            (''language'', get_prop rt data ''language''),
            (''stars'', get_prop rt data ''stargazers_count''),
            (''forks'', get_prop rt data ''forks_count''),
            (''open_issues'', get_prop rt data ''open_issues_count''),
            (''created_at'', get_prop rt data ''created_at''),
            (''updated_at'', get_prop rt data ''updated_at''),
            (''clone_url'', get_prop rt data ''clone_url''),
            (''default_branch'', get_prop rt data ''default_branch'')])))))"

definition reshape_issue :: "runtime \<Rightarrow> js \<Rightarrow> js_error + js" where
  "reshape_issue rt issue =
     object
       [(''number'', get_prop rt issue ''number''),
        (''title'', get_prop rt issue ''title''),
        (''body'', get_prop rt issue ''body''),
        (''state'', get_prop rt issue ''state''),
        (''author'', get_path rt issue [''user'', ''login'']),
        (''created_at'', get_prop rt issue ''created_at''),
        (''updated_at'', get_prop rt issue ''updated_at''),
        (''labels'',
           and_then (get_prop rt issue ''labels'') (\<lambda>labels.
             js_map rt ''issue.labels'' labels (\<lambda>label. get_prop rt label ''name''))),
        (''assignees'',
           and_then (get_prop rt issue ''assignees'') (\<lambda>assignees.
             js_map rt ''issue.assignees'' assignees
               (\<lambda>assignee. get_prop rt assignee ''login'')))]"

definition list_issues :: "runtime \<Rightarrow> client option \<Rightarrow> js \<Rightarrow> run" where
  "list_issues rt octokit args =
     try_catch
      (before_call (rest rt octokit) (\<lambda>c.
       before_call (get_prop rt args ''owner'') (\<lambda>owner.
       before_call (get_prop rt args ''repo'') (\<lambda>repo.
       before_call (get_prop rt args ''state'') (\<lambda>state.
       before_call (get_prop rt args ''per_page'') (\<lambda>per_page.
       await_call c
         (Issues_listForRepo owner repo (js_or state (JStr ''open'')) (js_or per_page (JNum 30)))
         (\<lambda>data. js_map rt ''data'' data (reshape_issue rt))))))))"

definition get_file_contents :: "runtime \<Rightarrow> client option \<Rightarrow> js \<Rightarrow> run" where
  "get_file_contents rt octokit args =
     try_catch
      (before_call (rest rt octokit) (\<lambda>c.
       before_call (get_prop rt args ''owner'') (\<lambda>owner.
       before_call (get_prop rt args ''repo'') (\<lambda>repo.
       before_call (get_prop rt args ''path'') (\<lambda>path.
       before_call (get_prop rt args ''ref'') (\<lambda>ref.
       await_call c (Repos_getContent owner repo path (js_or ref (JStr ''main''))) (\<lambda>data.
         and_then (get_prop rt data ''type'') (\<lambda>type.
           if type = JStr ''file'' then
             and_then (get_prop rt data ''content'') (\<lambda>encoded.
             and_then (buffer_from_base64 rt encoded) (\<lambda>content.
               object
                 [(''name'', get_prop rt data ''name''),
                  (''path'', get_prop rt data ''path''),
                  (''size'', get_prop rt data ''size''),
                  (''content'', Inr (JStr content)),
                  (''sha'', get_prop rt data ''sha'')]))
           else Inr (JObj [(''error'', JStr ''Path is not a file'')])))))))))"

text \<open>
  The template literal \<^verbatim>\<open>`${args.query} repo:${args.owner}/${args.repo}`\<close>: each
  substitution is evaluated and converted to a string before the next one is evaluated.
\<close>

definition search_query :: "runtime \<Rightarrow> js \<Rightarrow> js_error + string" where
  "search_query rt args =
     and_then (and_then (get_prop rt args ''query'') (to_string rt)) (\<lambda>query.
     and_then (and_then (get_prop rt args ''owner'') (to_string rt)) (\<lambda>owner.
     and_then (and_then (get_prop rt args ''repo'') (to_string rt)) (\<lambda>repo.
       Inr (query @ '' repo:'' @ owner @ ''/'' @ repo))))"

definition search_files :: "runtime \<Rightarrow> client option \<Rightarrow> js \<Rightarrow> run" where
  "search_files rt octokit args =
     try_catch
      (before_call (search_query rt args) (\<lambda>query.
       before_call (rest rt octokit) (\<lambda>c.
       await_call c (Search_code (JStr query) (JNum 30)) (\<lambda>data.
         object
           [(''total_count'', get_prop rt data ''total_count''),
            (''items'',
               and_then (get_prop rt data ''items'') (\<lambda>items.
                 js_map rt ''data.items'' items (\<lambda>item.
                   object
                     [(''name'', get_prop rt item ''name''),
                      (''path'', get_prop rt item ''path''),
                      (''sha'', get_prop rt item ''sha''),
                      (''url'', get_prop rt item ''html_url''),
                      (''score'', get_prop rt item ''score'')])))]))))"

definition reshape_commit :: "runtime \<Rightarrow> js \<Rightarrow> js_error + js" where
  "reshape_commit rt commit =
     object
       [(''sha'', get_prop rt commit ''sha''),
        (''message'', get_path rt commit [''commit'', ''message'']),
        (''author'',
           object
             [(''name'', get_path rt commit [''commit'', ''author'', ''name'']),
              (''email'', get_path rt commit [''commit'', ''author'', ''email'']),
              (''date'', get_path rt commit [''commit'', ''author'', ''date''])]),
        (''committer'',
           object
             [(''name'', get_path rt commit [''commit'', ''committer'', ''name'']),
              (''email'', get_path rt commit [''commit'', ''committer'', ''email'']),
              (''date'', get_path rt commit [''commit'', ''committer'', ''date''])]),
        (''url'', get_prop rt commit ''html_url'')]"

definition get_commits :: "runtime \<Rightarrow> client option \<Rightarrow> js \<Rightarrow> run" where
  "get_commits rt octokit args =
     try_catch
      (before_call (rest rt octokit) (\<lambda>c.
       before_call (get_prop rt args ''owner'') (\<lambda>owner.
       before_call (get_prop rt args ''repo'') (\<lambda>repo.
       before_call (get_prop rt args ''sha'') (\<lambda>sha.
       before_call (get_prop rt args ''per_page'') (\<lambda>per_page.
       await_call c
         (Repos_listCommits owner repo (js_or sha (JStr ''main'')) (js_or per_page (JNum 30)))
         (\<lambda>data. js_map rt ''data'' data (reshape_commit rt))))))))"

definition search_code :: "runtime \<Rightarrow> client option \<Rightarrow> js \<Rightarrow> run" where
  "search_code rt octokit args =
     try_catch
      (before_call (search_query rt args) (\<lambda>query.
       before_call (rest rt octokit) (\<lambda>c.
       await_call c (Search_code (JStr query) (JNum 30)) (\<lambda>data.
         object
           [(''total_count'', get_prop rt data ''total_count''),
            (''items'',
               and_then (get_prop rt data ''items'') (\<lambda>items.
                 js_map rt ''data.items'' items (\<lambda>item.
                   object
                     [(''name'', get_prop rt item ''name''),
                      (''path'', get_prop rt item ''path''),
                      (''sha'', get_prop rt item ''sha''),
                      (''url'', get_prop rt item ''html_url''),
                      (''score'', get_prop rt item ''score''),
                      (''text_matches'',
                         and_then (get_prop rt item ''text_matches'') (\<lambda>text_matches.
                           Inr (js_or text_matches (JArr []))))])))]))))"

section \<open>The route \<^verbatim>\<open>POST /tools/:toolName\<close>\<close>

text \<open>
  \<^verbatim>\<open>toolImplementations[toolName]\<close> is a property read on an object literal, so it finds
  the six own properties and, through the prototype chain, the members of
  \<^verbatim>\<open>Object.prototype\<close>: eleven functions and the accessor \<^verbatim>\<open>__proto__\<close>, whose value is
  \<^verbatim>\<open>Object.prototype\<close> itself (truthy, and not a function). Every other name reads
  \<^verbatim>\<open>undefined\<close>.
\<close>

datatype member = Undefined | Not_callable | Function "js \<Rightarrow> run"

definition tool_names :: "string list" where
  "tool_names =
     [''get_repository_info'', ''list_issues'', ''get_file_contents'', ''search_files'',
      ''get_commits'', ''search_code'']"

definition own_property :: "runtime \<Rightarrow> client option \<Rightarrow> string \<Rightarrow> (js \<Rightarrow> run) option" where
  "own_property rt octokit =
     map_of
       [(''get_repository_info'', get_repository_info rt octokit),
        (''list_issues'', list_issues rt octokit),
        (''get_file_contents'', get_file_contents rt octokit),
        (''search_files'', search_files rt octokit),
        (''get_commits'', get_commits rt octokit),
        (''search_code'', search_code rt octokit)]"

definition object_prototype_methods :: "string list" where
  "object_prototype_methods =
     [''constructor'', ''__defineGetter__'', ''__defineSetter__'', ''hasOwnProperty'',
      ''__lookupGetter__'', ''__lookupSetter__'', ''isPrototypeOf'', ''propertyIsEnumerable'',
      ''toString'', ''valueOf'', ''toLocaleString'']"

definition toolImplementations :: "runtime \<Rightarrow> client option \<Rightarrow> string \<Rightarrow> member" where
  "toolImplementations rt octokit toolName =
     (case own_property rt octokit toolName of
        Some adapter \<Rightarrow> Function adapter
      | None \<Rightarrow>
          if toolName \<in> set object_prototype_methods
            then Function (\<lambda>args. (inherited_call rt toolName args, []))
          else if toolName = ''__proto__'' then Not_callable
          else Undefined)"

text \<open>
  The response is the status (200 unless \<^verbatim>\<open>res.status\<close> set another) and the value
  handed to \<^verbatim>\<open>res.json\<close>. The handler's run also records what it invoked: the
  implementation called with its argument, then the upstream calls that call issued.
  The request body is the object \<^verbatim>\<open>express.json()\<close> parsed, and \<open>args\<close> is its
  \<^verbatim>\<open>arguments\<close> member, \<^verbatim>\<open>undefined\<close> when it has none. The handler is stated for any
  implementation table first.
\<close>

record response =
  status_code :: nat
  body :: js

datatype event = Invoked string js | Upstream request

definition post_tool_on ::
  "runtime \<Rightarrow> (string \<Rightarrow> member) \<Rightarrow> client option \<Rightarrow> string \<Rightarrow> js \<Rightarrow> response \<times> event list" where
  "post_tool_on rt implementations octokit toolName args =
     (case implementations toolName of
        Undefined \<Rightarrow>
          (\<lparr>status_code = 404, body = JObj [(''error'', JStr ''Tool not found'')]\<rparr>, [])
      | implementation \<Rightarrow>
          (case octokit of
             None \<Rightarrow>
               (\<lparr>status_code = 500,
                 body = JObj [(''error'', JStr ''GitHub token not configured'')]\<rparr>, [])
           | Some _ \<Rightarrow>
               (case implementation of
                  Function f \<Rightarrow>
                    (case f args of
                       (Inr result, calls) \<Rightarrow>
                         (\<lparr>status_code = 200, body = result\<rparr>,
                          Invoked toolName args # map Upstream calls)
                     | (Inl error, calls) \<Rightarrow>
                         (\<lparr>status_code = 500, body = JObj [(''error'', JStr (message error))]\<rparr>,
                          Invoked toolName args # map Upstream calls))
                | _ \<Rightarrow>
                    (\<lparr>status_code = 500,
                      body = JObj [(''error'',
                        JStr (not_a_function rt ''toolImplementations[toolName]''))]\<rparr>, []))))"

definition post_tool :: "runtime \<Rightarrow> client option \<Rightarrow> string \<Rightarrow> js \<Rightarrow> response \<times> event list" where
  "post_tool rt octokit toolName args =
     post_tool_on rt (toolImplementations rt octokit) octokit toolName args"

section \<open>A runtime, stubbed clients and sample data to evaluate on\<close>

text \<open>
  A sample runtime for the evaluation of the model on concrete inputs. The \<^verbatim>\<open>TypeError\<close>
  texts are V8's, and \<^verbatim>\<open>undefined\<close>, \<^verbatim>\<open>null\<close> and the booleans convert to strings as the
  language defines. What it answers for the string conversion of a number, an array or an
  object, for \<^verbatim>\<open>Buffer.from\<close> on a value that is not a string and for a call of an
  inherited member is a placeholder (it rejects): no evaluation in this theory reaches it.
\<close>

definition sample_runtime :: runtime where
  "sample_runtime =
     \<lparr>cannot_read = (\<lambda>v p.
        ''Cannot read properties of '' @ (if v = JNull then ''null'' else ''undefined'')
          @ '' (reading '' @ [CHR 0x27] @ p @ [CHR 0x27] @ '')''),
      not_a_function = (\<lambda>expr. expr @ '' is not a function''),
      to_string_other = (\<lambda>v.
        case v of
          JUndefined \<Rightarrow> Inr ''undefined''
        | JNull \<Rightarrow> Inr ''null''
        | JBool b \<Rightarrow> Inr (if b then ''true'' else ''false'')
        | _ \<Rightarrow> Inl (type_error ''not evaluated'')),
      buffer_from_other = (\<lambda>v. Inl (type_error ''not evaluated'')),
      inherited_call = (\<lambda>name args. Inl (type_error ''not evaluated''))\<rparr>"

text \<open>
  A client that rejects every call with one error, a client that answers every call with
  one \<^verbatim>\<open>data\<close>, and an implementation table whose every entry is a function that throws.
\<close>

definition rejecting :: "js_error \<Rightarrow> client" where
  "rejecting e = (\<lambda>req. Inl e)"

definition answering :: "js \<Rightarrow> client" where
  "answering data = (\<lambda>req. Inr data)"

definition throwing :: "js_error \<Rightarrow> string \<Rightarrow> member" where
  "throwing e = (\<lambda>name. Function (\<lambda>args. (Inl e, [])))"

text \<open>
  The shape of an issue in the upstream API's answer, as far as \<open>reshape_issue\<close> relies on
  it: the issue and its \<^verbatim>\<open>user\<close> are not \<^verbatim>\<open>null\<close>, and \<^verbatim>\<open>labels\<close> and \<^verbatim>\<open>assignees\<close> are
  arrays without \<^verbatim>\<open>null\<close> elements.
\<close>

fun elements :: "js \<Rightarrow> js list" where
  "elements (JArr xs) = xs"
| "elements v = []"

fun is_array :: "js \<Rightarrow> bool" where
  "is_array (JArr xs) = True"
| "is_array v = False"

definition issue_shaped :: "js \<Rightarrow> bool" where
  "issue_shaped issue =
     (\<not> nullish issue \<and> \<not> nullish (prop_of issue ''user'') \<and>
      is_array (prop_of issue ''labels'') \<and>
      list_all (\<lambda>label. \<not> nullish label) (elements (prop_of issue ''labels'')) \<and>
      is_array (prop_of issue ''assignees'') \<and>
      list_all (\<lambda>assignee. \<not> nullish assignee) (elements (prop_of issue ''assignees'')))"

text \<open>The element \<open>reshape_issue\<close> returns for an issue of that shape.\<close>

definition issue_summary :: "js \<Rightarrow> js" where
  "issue_summary issue =
     JObj
       [(''number'', prop_of issue ''number''),
        (''title'', prop_of issue ''title''),
        (''body'', prop_of issue ''body''),
        (''state'', prop_of issue ''state''),
        (''author'', prop_of (prop_of issue ''user'') ''login''),
        (''created_at'', prop_of issue ''created_at''),
        (''updated_at'', prop_of issue ''updated_at''),
        (''labels'',
           JArr (map (\<lambda>label. prop_of label ''name'') (elements (prop_of issue ''labels'')))),
        (''assignees'',
           JArr (map (\<lambda>assignee. prop_of assignee ''login'')
             (elements (prop_of issue ''assignees''))))]"

definition sample_issue :: js where
  "sample_issue =
     JObj [(''number'', JNum 7), (''title'', JStr ''Crash on start''), (''body'', JNull),
           (''state'', JStr ''open''), (''user'', JObj [(''login'', JStr ''alice'')]),
           (''created_at'', JStr ''2024-01-01T00:00:00Z''),
           (''updated_at'', JStr ''2024-01-02T00:00:00Z''),
           (''labels'', JArr [JObj [(''name'', JStr ''bug'')], JObj [(''name'', JStr ''ui'')]]),
           (''assignees'', JArr [JObj [(''login'', JStr ''bob'')]])]"

definition sample_file :: js where
  "sample_file =
     JObj [(''type'', JStr ''file''), (''name'', JStr ''hello.txt''),
           (''path'', JStr ''docs/hello.txt''), (''size'', JNum 5),
           (''content'', JStr ''aGVsbG8=''), (''sha'', JStr ''b6fc4c62'')]"

section \<open>The shape of an adapter's run\<close>

lemma try_catch_returns: "\<exists>v. fst (try_catch r) = Inr v"
  by (cases r) (auto simp: try_catch_def split: sum.splits)

lemma try_catch_value: "try_catch (Inr v, calls) = (Inr v, calls)"
  by (simp add: try_catch_def)

lemma try_catch_before_call:
  "try_catch (before_call m k) =
     (case m of Inl e \<Rightarrow> (Inr (handleGitHubError e), []) | Inr x \<Rightarrow> try_catch (k x))"
  by (simp add: try_catch_def before_call_def split: sum.splits)

lemma try_catch_await_call:
  "try_catch (await_call c req k) =
     (case c req of
        Inl e \<Rightarrow> (Inr (handleGitHubError e), [req])
      | Inr data \<Rightarrow> try_catch (k data, [req]))"
  by (simp add: try_catch_def await_call_def split: sum.splits)

lemma snd_try_catch: "snd (try_catch (r, calls)) = calls"
  by (simp add: try_catch_def split: sum.splits)

lemma get_prop_value: "\<not> nullish v \<Longrightarrow> get_prop rt v p = Inr (prop_of v p)"
  by (simp add: get_prop_def)

lemma and_then_Inr: "and_then (Inr x) k = k x"
  by (simp add: and_then_def)

lemmas run_simps = try_catch_before_call try_catch_await_call snd_try_catch rest_def

lemmas run_defs = run_simps get_prop_def js_or_def

text \<open>When the one call an adapter issued is rejected, the adapter returns the normalized error.\<close>

lemma get_repository_info_rejected:
  "snd (get_repository_info rt (Some c) args) = [req] \<Longrightarrow> c req = Inl e \<Longrightarrow>
   fst (get_repository_info rt (Some c) args) = Inr (handleGitHubError e)"
  by (auto simp: get_repository_info_def run_simps split: sum.splits)

lemma list_issues_rejected:
  "snd (list_issues rt (Some c) args) = [req] \<Longrightarrow> c req = Inl e \<Longrightarrow>
   fst (list_issues rt (Some c) args) = Inr (handleGitHubError e)"
  by (auto simp: list_issues_def run_simps split: sum.splits)

lemma get_file_contents_rejected:
  "snd (get_file_contents rt (Some c) args) = [req] \<Longrightarrow> c req = Inl e \<Longrightarrow>
   fst (get_file_contents rt (Some c) args) = Inr (handleGitHubError e)"
  by (auto simp: get_file_contents_def run_simps split: sum.splits)

lemma search_files_rejected:
  "snd (search_files rt (Some c) args) = [req] \<Longrightarrow> c req = Inl e \<Longrightarrow>
   fst (search_files rt (Some c) args) = Inr (handleGitHubError e)"
  by (auto simp: search_files_def run_simps split: sum.splits)

lemma get_commits_rejected:
  "snd (get_commits rt (Some c) args) = [req] \<Longrightarrow> c req = Inl e \<Longrightarrow>
   fst (get_commits rt (Some c) args) = Inr (handleGitHubError e)"
  by (auto simp: get_commits_def run_simps split: sum.splits)

lemma search_code_rejected:
  "snd (search_code rt (Some c) args) = [req] \<Longrightarrow> c req = Inl e \<Longrightarrow>
   fst (search_code rt (Some c) args) = Inr (handleGitHubError e)"
  by (auto simp: search_code_def run_simps split: sum.splits)

lemma own_property_cases:
  "own_property rt octokit name = Some f \<Longrightarrow>
   f = get_repository_info rt octokit \<or> f = list_issues rt octokit \<or>
   f = get_file_contents rt octokit \<or> f = search_files rt octokit \<or>
   f = get_commits rt octokit \<or> f = search_code rt octokit"
  by (auto simp: own_property_def split: if_splits)

lemma own_property_tool_names:
  "(own_property rt octokit name \<noteq> None) = (name \<in> set tool_names)"
  by (auto simp: own_property_def tool_names_def)

lemma adapter_rejected:
  assumes "own_property rt (Some c) name = Some f" and "snd (f args) = [req]" and "c req = Inl e"
  shows "fst (f args) = Inr (handleGitHubError e)"
  using own_property_cases [OF assms(1)] assms(2,3)
  by (auto intro: get_repository_info_rejected list_issues_rejected get_file_contents_rejected
      search_files_rejected get_commits_rejected search_code_rejected)

lemma adapter_returns:
  "own_property rt octokit name = Some f \<Longrightarrow> \<exists>v. fst (f args) = Inr v"
  by (auto dest!: own_property_cases
      simp: get_repository_info_def list_issues_def get_file_contents_def search_files_def
        get_commits_def search_code_def try_catch_returns)

section \<open>Unknown tool names\<close>

text \<open>
  A name that is neither a tool nor a member of \<^verbatim>\<open>Object.prototype\<close> is answered with
  404 and the fixed body, with or without a credential.
\<close>

lemma absent_name_404:
  assumes "name \<notin> set tool_names" and "name \<notin> set object_prototype_methods"
    and "name \<noteq> ''__proto__''"
  shows "post_tool rt octokit name args =
     (\<lparr>status_code = 404, body = JObj [(''error'', JStr ''Tool not found'')]\<rparr>, [])"
proof -
  from assms(1) have "own_property rt octokit name = None"
    using own_property_tool_names [of rt octokit name] by simp
  with assms(2,3) have "toolImplementations rt octokit name = Undefined"
    by (simp add: toolImplementations_def)
  then show ?thesis by (simp add: post_tool_def post_tool_on_def)
qed

lemma absent_name_404_witness:
  "post_tool sample_runtime None ''delete_repository'' (JObj []) =
     (\<lparr>status_code = 404, body = JObj [(''error'', JStr ''Tool not found'')]\<rparr>, [])"
  using absent_name_404 [of "''delete_repository''" sample_runtime None "JObj []"]
  by (simp add: tool_names_def object_prototype_methods_def)

text \<open>
  Claim C1: for every tool name that is not one of the six registered tools, the route
  answers 404 with the body \<^verbatim>\<open>{error: "Tool not found"}\<close> and never 500, with or without a
  credential. The code does not do this for the names \<^verbatim>\<open>Object.prototype\<close> gives every
  object literal: \<^verbatim>\<open>constructor\<close> is not a tool, yet without a credential the route
  answers 500 with \<^verbatim>\<open>GitHub token not configured\<close>; and with a credential the name
  \<^verbatim>\<open>__proto__\<close> reads a value that is not a function, whose call throws into the
  handler's \<^verbatim>\<open>catch\<close>: 500 again.
\<close>

theorem inherited_name_not_404:
  "''constructor'' \<notin> set tool_names \<and> ''__proto__'' \<notin> set tool_names \<and>
   post_tool rt None ''constructor'' args =
     (\<lparr>status_code = 500, body = JObj [(''error'', JStr ''GitHub token not configured'')]\<rparr>, []) \<and>
   post_tool rt (Some c) ''__proto__'' args =
     (\<lparr>status_code = 500,
       body = JObj [(''error'', JStr (not_a_function rt ''toolImplementations[toolName]''))]\<rparr>, [])"
  by (simp add: post_tool_def post_tool_on_def toolImplementations_def own_property_def
      object_prototype_methods_def tool_names_def)

section \<open>No credential\<close>

text \<open>
  Claim C2: for every known tool name, when no credential is configured (\<^verbatim>\<open>GITHUB_TOKEN\<close>
  unset or empty, so that the client was never constructed) the route answers 500 with the
  message \<^verbatim>\<open>GitHub token not configured\<close>, and nothing is invoked: no adapter and no
  upstream call.
\<close>

theorem no_credential_500:
  assumes "name \<in> set tool_names" and "token = None \<or> token = Some []"
  shows "post_tool rt (octokit_setup token Octokit) name args =
     (\<lparr>status_code = 500, body = JObj [(''error'', JStr ''GitHub token not configured'')]\<rparr>, [])"
proof -
  from assms(2) have none: "octokit_setup token Octokit = None"
    by (auto simp: octokit_setup_def)
  from assms(1) obtain f where "own_property rt None name = Some f"
    using own_property_tool_names [of rt None name] by auto
  then have "toolImplementations rt None name = Function f"
    by (simp add: toolImplementations_def)
  then show ?thesis
    by (simp add: none post_tool_def post_tool_on_def)
qed

theorem no_credential_500_witness:
  "post_tool sample_runtime (octokit_setup None (\<lambda>token. answering JNull)) ''list_issues''
     (JObj [(''owner'', JStr ''octocat''), (''repo'', JStr ''Hello-World'')]) =
     (\<lparr>status_code = 500, body = JObj [(''error'', JStr ''GitHub token not configured'')]\<rparr>, [])"
  using no_credential_500 [of "''list_issues''" None sample_runtime "\<lambda>token. answering JNull"
      "JObj [(''owner'', JStr ''octocat''), (''repo'', JStr ''Hello-World'')]"]
  by (simp add: tool_names_def)

section \<open>Upstream errors\<close>






section \<open>Exceptions at the route\<close>

text \<open>
  Claim C5: whatever function the implementation table holds for a tool name, when a
  credential is configured and the function's call throws, the route catches the error and
  answers 500 with the error's message in the \<^verbatim>\<open>error\<close> field. (The six adapters of this
  table never throw, see C10, so the hypothesis is met only by another implementation.)
\<close>

theorem adapter_exception_500:
  assumes "implementations toolName = Function f" and "f args = (Inl e, calls)"
  shows "post_tool_on rt implementations (Some c) toolName args =
     (\<lparr>status_code = 500, body = JObj [(''error'', JStr (message e))]\<rparr>,
      Invoked toolName args # map Upstream calls)"
  using assms by (simp add: post_tool_on_def)

theorem adapter_exception_500_witness:
  "post_tool_on sample_runtime (throwing (Error None ''boom'')) (Some (answering JNull))
      ''get_commits'' (JObj []) =
     (\<lparr>status_code = 500, body = JObj [(''error'', JStr ''boom'')]\<rparr>,
      [Invoked ''get_commits'' (JObj [])])"
  using adapter_exception_500 [of "throwing (Error None ''boom'')" "''get_commits''"
      "\<lambda>args. (Inl (Error None ''boom''), [])" "JObj []" "Error None ''boom''" "[]"
      sample_runtime "answering JNull"]
  by (simp add: throwing_def)

section \<open>Adapter failures at the route\<close>

text \<open>
  Claim C10: whatever one of the six adapters returns, the error objects of
  \<open>handleGitHubError\<close> and \<^verbatim>\<open>{error: "Path is not a file"}\<close> included, is the body of a
  response with status 200: the adapter never throws, so the route's 500 branch is not
  taken. In particular, when the upstream call the adapter issued is rejected, with
  whatever status, the response has status 200 and the normalized error as its body.
\<close>

theorem adapter_failure_is_200:
  assumes "own_property rt (Some c) name = Some adapter"
  shows "(\<exists>v. fst (adapter args) = Inr v \<and>
            post_tool rt (Some c) name args =
              (\<lparr>status_code = 200, body = v\<rparr>,
               Invoked name args # map Upstream (snd (adapter args)))) \<and>
         (\<forall>req e. snd (adapter args) = [req] \<and> c req = Inl e \<longrightarrow>
            fst (post_tool rt (Some c) name args) =
              \<lparr>status_code = 200, body = handleGitHubError e\<rparr>)"
proof -
  from adapter_returns [OF assms] obtain v where v: "fst (adapter args) = Inr v" by blast
  have impl: "toolImplementations rt (Some c) name = Function adapter"
    using assms by (simp add: toolImplementations_def)
  have post: "post_tool rt (Some c) name args =
      (\<lparr>status_code = 200, body = v\<rparr>, Invoked name args # map Upstream (snd (adapter args)))"
    using v impl by (cases "adapter args") (simp add: post_tool_def post_tool_on_def)
  have "fst (post_tool rt (Some c) name args) = \<lparr>status_code = 200, body = handleGitHubError e\<rparr>"
    if "snd (adapter args) = [req]" and "c req = Inl e" for req e
    using adapter_rejected [OF assms that] v post by simp
  with v post show ?thesis by blast
qed

theorem adapter_failure_is_200_witness:
  "fst (post_tool sample_runtime (Some (rejecting (Error (Some 404) ''Not Found'')))
          ''get_file_contents''
          (JObj [(''owner'', JStr ''octocat''), (''repo'', JStr ''Hello-World''),
                 (''path'', JStr ''README'')])) =
     \<lparr>status_code = 200, body = JObj [(''error'', JStr ''Resource not found'')]\<rparr>"
proof -
  let ?c = "rejecting (Error (Some 404) ''Not Found'')"
  let ?a = "JObj [(''owner'', JStr ''octocat''), (''repo'', JStr ''Hello-World''),
                 (''path'', JStr ''README'')]"
  let ?r = "Repos_getContent (JStr ''octocat'') (JStr ''Hello-World'') (JStr ''README'')
      (JStr ''main'')"
  have own: "own_property sample_runtime (Some ?c) ''get_file_contents'' =
      Some (get_file_contents sample_runtime (Some ?c))"
    by (simp add: own_property_def)
  have calls: "snd (get_file_contents sample_runtime (Some ?c) ?a) = [?r]"
    by (simp add: get_file_contents_def run_defs rejecting_def)
  have rej: "?c ?r = Inl (Error (Some 404) ''Not Found'')"
    by (simp add: rejecting_def)
  from adapter_failure_is_200 [OF own, of ?a] calls rej
  have "fst (post_tool sample_runtime (Some ?c) ''get_file_contents'' ?a) =
      \<lparr>status_code = 200, body = handleGitHubError (Error (Some 404) ''Not Found'')\<rparr>"
    by blast
  then show ?thesis by (simp add: handleGitHubError_def)
qed

section \<open>File contents\<close>

text \<open>
  Claim C6: when the answer to the \<^verbatim>\<open>getContent\<close> call is not a file (a directory is
  answered with the array of its entries, which has no \<^verbatim>\<open>type\<close>; every other answer
  whose \<^verbatim>\<open>type\<close> is not \<^verbatim>\<open>file\<close> is treated alike), \<open>get_file_contents\<close> returns
  \<^verbatim>\<open>{error: "Path is not a file"}\<close>, and the \<^verbatim>\<open>getContent\<close> call is the only upstream call
  it issued.
\<close>

theorem directory_is_not_a_file:
  assumes "\<not> nullish args"
    and "c (Repos_getContent (prop_of args ''owner'') (prop_of args ''repo'') (prop_of args ''path'')
           (js_or (prop_of args ''ref'') (JStr ''main''))) = Inr data"
    and "\<not> nullish data" and "prop_of data ''type'' \<noteq> JStr ''file''"
  shows "get_file_contents rt (Some c) args =
     (Inr (JObj [(''error'', JStr ''Path is not a file'')]),
      [Repos_getContent (prop_of args ''owner'') (prop_of args ''repo'') (prop_of args ''path'')
         (js_or (prop_of args ''ref'') (JStr ''main''))])"
  using assms
  by (simp add: get_file_contents_def try_catch_before_call try_catch_await_call rest_def
      get_prop_value and_then_Inr try_catch_value)

theorem directory_is_not_a_file_witness:
  "get_file_contents sample_runtime
     (Some (answering (JArr [JObj [(''type'', JStr ''file''), (''name'', JStr ''README'')]])))
     (JObj [(''owner'', JStr ''octocat''), (''repo'', JStr ''Hello-World''), (''path'', JStr ''docs'')]) =
   (Inr (JObj [(''error'', JStr ''Path is not a file'')]),
    [Repos_getContent (JStr ''octocat'') (JStr ''Hello-World'') (JStr ''docs'') (JStr ''main'')])"
  using directory_is_not_a_file [of
      "JObj [(''owner'', JStr ''octocat''), (''repo'', JStr ''Hello-World''), (''path'', JStr ''docs'')]"
      "answering (JArr [JObj [(''type'', JStr ''file''), (''name'', JStr ''README'')]])"
      "JArr [JObj [(''type'', JStr ''file''), (''name'', JStr ''README'')]]" sample_runtime]
  by (simp add: answering_def js_or_def)

subsection \<open>Decoding the base64 encoding gives the bytes back\<close>

lemma byte_bound: "(of_char c :: nat) < 256"
proof -
  have "(of_char c :: nat) mod 256 < 256" by simp
  then show ?thesis by simp
qed

lemma group_byte0: "(y :: nat) < 256 \<Longrightarrow> x div 4 * 4 + (x mod 4 * 16 + y div 16) div 16 = x"
proof -
  assume "y < 256"
  then have "y div 16 < 16" by simp
  then have "(x mod 4 * 16 + y div 16) div 16 = x mod 4" by simp
  then show ?thesis by simp
qed

lemma group_byte1:
  "(y :: nat) < 256 \<Longrightarrow> z < 256 \<Longrightarrow>
   (x mod 4 * 16 + y div 16) mod 16 * 16 + (y mod 16 * 4 + z div 64) div 4 = y"
proof -
  assume "y < 256" and "z < 256"
  then have "y div 16 < 16" and "z div 64 < 4" by simp_all
  then have "(x mod 4 * 16 + y div 16) mod 16 = y div 16"
    and "(y mod 16 * 4 + z div 64) div 4 = y mod 16" by simp_all
  then show ?thesis by simp
qed

lemma group_byte2: "(z :: nat) < 256 \<Longrightarrow> (y mod 16 * 4 + z div 64) mod 4 * 64 + z mod 64 = z"
proof -
  assume "z < 256"
  then have "z div 64 < 4" by simp
  then have "(y mod 16 * 4 + z div 64) mod 4 = z div 64" by simp
  then show ?thesis by simp
qed

lemma group_byte1_last:
  "(y :: nat) < 256 \<Longrightarrow> (x mod 4 * 16 + y div 16) mod 16 * 16 + (y mod 16 * 4) div 4 = y"
  using group_byte1 [of y 0 x] by simp

lemma group_byte0_last: "x div 4 * 4 + (x mod 4 * 16) div 16 = (x :: nat)"
  using group_byte0 [of 0 x] by simp

lemma digit_ascii: "(of_char (base64_digit n) :: nat) < 128"
  by (auto simp: base64_digit_def)

lemma digit_value: "n < 64 \<Longrightarrow> unbase64 (of_char (base64_digit n)) = Some n"
  by (auto simp: base64_digit_def unbase64_def)

lemma digit_not_pad: "(of_char (base64_digit n) :: nat) \<noteq> 61"
  by (auto simp: base64_digit_def)

lemma line_break_codes:
  "(of_char ch \<noteq> (10 :: nat) \<and> of_char ch \<noteq> (13 :: nat)) = (ch \<noteq> CHR 0x0A \<and> ch \<noteq> CHR 0x0D)"
proof -
  have "(of_char ch = (of_char (CHR 0x0A) :: nat)) = (ch = CHR 0x0A)"
    and "(of_char ch = (of_char (CHR 0x0D) :: nat)) = (ch = CHR 0x0D)"
    by (rule of_char_eq_iff)+
  moreover have "(of_char (CHR 0x0A) :: nat) = 10" and "(of_char (CHR 0x0D) :: nat) = 13"
    by simp_all
  ultimately show ?thesis by metis
qed

lemma ascii_units:
  "(\<And>c. c \<in> set s \<Longrightarrow> (of_char c :: nat) < 128) \<Longrightarrow> utf16_units s = map of_char s"
  by (induction s) simp_all

lemma sextets_digit:
  "n < 64 \<Longrightarrow> base64_sextets (of_char (base64_digit n) # us) = n # base64_sextets us"
  using digit_ascii [of n] digit_not_pad [of n]
  by (simp add: base64_sextets_def List.map_filter_simps digit_value)

lemma sextets_pad: "base64_sextets (61 # us) = []"
  by (simp add: base64_sextets_def List.map_filter_simps)

lemma sextets_nil: "base64_sextets [] = []"
  by (simp add: base64_sextets_def List.map_filter_simps)

lemma sextets_line_breaks:
  "base64_sextets (filter (\<lambda>u. u \<noteq> 10 \<and> u \<noteq> 13) us) = base64_sextets us"
  by (induction us) (auto simp: base64_sextets_def List.map_filter_simps unbase64_def)

lemma sextet_bounds:
  "(x :: nat) < 256 \<Longrightarrow> x div 4 < 64"
  "(y :: nat) < 256 \<Longrightarrow> x mod 4 * 16 + y div 16 < 64"
  "(z :: nat) < 256 \<Longrightarrow> y mod 16 * 4 + z div 64 < 64"
  "(z :: nat) mod 64 < 64"
  "(x :: nat) mod 4 * 16 < 64"
  "(y :: nat) mod 16 * 4 < 64"
  by arith+

lemmas byte_sextets = sextet_bounds(1-3) [OF byte_bound] sextet_bounds(4-6)

lemma groups_encode:
  "base64_groups (base64_sextets (map of_char (base64_encode bs))) = map of_char bs"
proof (induction bs rule: base64_encode.induct)
  case (1 a b c after)
  let ?more = "base64_sextets (map of_char (base64_encode after))"
  have "base64_sextets (map of_char (base64_encode (a # b # c # after))) =
      (of_char a div 4) # (of_char a mod 4 * 16 + of_char b div 16) #
      (of_char b mod 16 * 4 + of_char c div 64) # (of_char c mod 64) # ?more"
    by (simp add: sextets_digit byte_sextets)
  moreover have "base64_groups ((of_char a div 4) # (of_char a mod 4 * 16 + of_char b div 16) #
      (of_char b mod 16 * 4 + of_char c div 64) # (of_char c mod 64) # ?more) =
      [of_char a, of_char b, of_char c] @ base64_groups ?more"
    by (simp only: base64_groups.simps group_byte0 [OF byte_bound]
        group_byte1 [OF byte_bound byte_bound] group_byte2 [OF byte_bound])
  ultimately show ?case using 1 by simp
next
  case (2 a b)
  have "base64_sextets (map of_char (base64_encode [a, b])) =
      [of_char a div 4, of_char a mod 4 * 16 + of_char b div 16, of_char b mod 16 * 4]"
    by (simp add: sextets_digit byte_sextets sextets_pad)
  moreover have "base64_groups [of_char a div 4, of_char a mod 4 * 16 + of_char b div 16,
      of_char b mod 16 * 4] = [of_char a, of_char b]"
    by (simp only: base64_groups.simps group_byte0 [OF byte_bound] group_byte1_last [OF byte_bound])
  ultimately show ?case by simp
next
  case (3 a)
  have "base64_sextets (map of_char (base64_encode [a])) = [of_char a div 4, of_char a mod 4 * 16]"
    by (simp add: sextets_digit byte_sextets sextets_pad)
  moreover have "base64_groups [of_char a div 4, of_char a mod 4 * 16] = [of_char a]"
    by (simp only: base64_groups.simps group_byte0_last)
  ultimately show ?case by simp
next
  case 4
  show ?case by (simp add: sextets_nil)
qed

lemma encode_ascii: "c \<in> set (base64_encode bs) \<Longrightarrow> (of_char c :: nat) < 128"
  by (induction bs rule: base64_encode.induct) (auto simp: digit_ascii)

lemma decode_encode:
  assumes "filter (\<lambda>ch. ch \<noteq> CHR 0x0A \<and> ch \<noteq> CHR 0x0D) encoded = base64_encode bs"
  shows "base64_decode encoded = bs"
proof -
  have ascii: "(of_char c :: nat) < 128" if "c \<in> set encoded" for c
  proof (cases "c \<noteq> CHR 0x0A \<and> c \<noteq> CHR 0x0D")
    case True
    with that have "c \<in> set (filter (\<lambda>ch. ch \<noteq> CHR 0x0A \<and> ch \<noteq> CHR 0x0D) encoded)" by simp
    then have "c \<in> set (base64_encode bs)" by (simp only: assms)
    then show ?thesis by (rule encode_ascii)
  next
    case False
    then have "c = CHR 0x0A \<or> c = CHR 0x0D" by simp
    then show ?thesis by (elim disjE) simp_all
  qed
  have units: "utf16_units encoded = map of_char encoded"
    by (rule ascii_units) (rule ascii)
  have "filter (\<lambda>u :: nat. u \<noteq> 10 \<and> u \<noteq> 13) (map of_char encoded) =
      map of_char (filter (\<lambda>ch. ch \<noteq> CHR 0x0A \<and> ch \<noteq> CHR 0x0D) encoded)"
    by (simp add: filter_map comp_def line_break_codes)
  also have "\<dots> = map of_char (base64_encode bs)"
    by (simp only: assms)
  finally have "base64_sextets (map of_char encoded) =
      base64_sextets (map of_char (base64_encode bs))"
    using sextets_line_breaks [of "map of_char encoded"] by simp
  then have "base64_groups (base64_sextets (utf16_units encoded)) = map of_char bs"
    by (simp only: units groups_encode)
  then show ?thesis by (simp add: base64_decode_def comp_def)
qed

subsection \<open>The text of decoded bytes is well-formed UTF-8\<close>

lemma wf_ascii: "(of_char a :: nat) < 0x80 \<Longrightarrow> utf8_well_formed (a # r) = utf8_well_formed r"
  by simp

lemma wf_replacement: "utf8_well_formed (replacement @ r) = utf8_well_formed r"
  by (simp add: replacement_def in_range_def)

lemma lead_wf:
  assumes "utf8_lead (of_char c) = Some (n, l, h)"
    and "length tail = n" and "in_range l h (hd tail)" and "list_all (in_range 0x80 0xBF) (tl tail)"
    and "utf8_well_formed after"
  shows "utf8_well_formed (c # tail @ after)"
proof -
  from assms(1) consider
      (two) "n = 1" "l = 0x80" "h = 0xBF" "in_range 0xC2 0xDF c"
    | (three) "n = 2" "in_range 0xE0 0xEF c"
        "l = (if of_char c = (0xE0 :: nat) then 0xA0 else 0x80)"
        "h = (if of_char c = (0xED :: nat) then 0x9F else 0xBF)"
    | (four) "n = 3" "in_range 0xF0 0xF4 c"
        "l = (if of_char c = (0xF0 :: nat) then 0x90 else 0x80)"
        "h = (if of_char c = (0xF4 :: nat) then 0x8F else 0xBF)"
    by (auto simp: utf8_lead_def in_range_def split: if_splits)
  then show ?thesis
  proof cases
    case two
    with assms(2) obtain t where "tail = [t]" by (cases tail) auto
    with two assms(3,5) show ?thesis by (simp add: in_range_def)
  next
    case three
    with assms(2) obtain t u where "tail = [t, u]"
      by (cases tail; cases "tl tail") auto
    with three assms(3,4,5) show ?thesis by (simp add: in_range_def)
  next
    case four
    with assms(2) obtain t u v where "tail = [t, u, v]"
      by (cases tail; cases "tl tail"; cases "tl (tl tail)") auto
    with four assms(3,4,5) show ?thesis by (simp add: in_range_def)
  qed
qed


lemma scan_well_formed:
  "needed = 0 \<or>
   (\<forall>tail after. length tail = needed \<and> in_range lo hi (hd tail) \<and>
      list_all (in_range 0x80 0xBF) (tl tail) \<and> utf8_well_formed after \<longrightarrow>
      utf8_well_formed (pend @ tail @ after)) \<Longrightarrow>
   utf8_well_formed (utf8_scan needed lo hi pend cs)"
proof (induction needed lo hi pend cs rule: utf8_scan.induct)
  case (1 needed lo hi pend)
  show ?case using wf_replacement [of "[]"] by simp
next
  case (2 needed lo hi pend c cs)
  show ?case
  proof (cases "needed = 0")
    case True
    show ?thesis
    proof (cases "(of_char c :: nat) < 128")
      case ascii: True
      from 2(1) [OF True ascii] have "utf8_well_formed (utf8_scan 0 128 191 [] cs)" by simp
      with True ascii show ?thesis by simp
    next
      case high: False
      show ?thesis
      proof (cases "utf8_lead (of_char c)")
        case None
        from 2(2) [OF True high None] have "utf8_well_formed (utf8_scan 0 128 191 [] cs)" by simp
        with True high None show ?thesis by (simp add: wf_replacement)
      next
        case (Some nlh)
        obtain n l h where nlh: "nlh = (n, l, h)" by (cases nlh) auto
        have "utf8_well_formed (utf8_scan n l h [c] cs)"
        proof (rule 2(3) [OF True high Some])
          show "(n, l, h) = nlh" by (simp add: nlh)
          show "(l, h) = (l, h)" by simp
          show "n = 0 \<or>
              (\<forall>tail after. length tail = n \<and> in_range l h (hd tail) \<and>
                 list_all (in_range 0x80 0xBF) (tl tail) \<and> utf8_well_formed after \<longrightarrow>
                 utf8_well_formed ([c] @ tail @ after))"
          proof (rule disjI2, intro allI impI)
            fix tail after
            assume a: "length tail = n \<and> in_range l h (hd tail) \<and>
                list_all (in_range 0x80 0xBF) (tl tail) \<and> utf8_well_formed after"
            have lead: "utf8_lead (of_char c) = Some (n, l, h)" using Some nlh by simp
            from a lead_wf [OF lead, of tail after] have "utf8_well_formed (c # tail @ after)"
              by blast
            then show "utf8_well_formed ([c] @ tail @ after)" by (simp only: append.simps)
          qed
        qed
        with True high Some nlh show ?thesis by simp
      qed
    qed
  next
    case False
    with 2(7) have inv: "length tail = needed \<Longrightarrow> in_range lo hi (hd tail) \<Longrightarrow>
        list_all (in_range 0x80 0xBF) (tl tail) \<Longrightarrow> utf8_well_formed after \<Longrightarrow>
        utf8_well_formed (pend @ tail @ after)" for tail after
      by blast
    show ?thesis
    proof (cases "lo \<le> of_char c \<and> of_char c \<le> hi")
      case fits: True
      show ?thesis
      proof (cases "needed = 1")
        case True
        from 2(4) [OF False fits True] have "utf8_well_formed (utf8_scan 0 128 191 [] cs)" by simp
        with inv [of "[c]"] True fits have "utf8_well_formed (pend @ [c] @ utf8_scan 0 128 191 [] cs)"
          by (simp add: in_range_def)
        with False fits True show ?thesis by simp
      next
        case more: False
        have "utf8_well_formed (utf8_scan (needed - 1) 128 191 (pend @ [c]) cs)"
        proof (rule 2(5) [OF False fits more], rule disjI2, intro allI impI)
          fix tail after
          assume a: "length tail = needed - 1 \<and> in_range 128 191 (hd tail) \<and>
              list_all (in_range 0x80 0xBF) (tl tail) \<and> utf8_well_formed after"
          with False more have "tail \<noteq> []" by auto
          with a have "list_all (in_range 0x80 0xBF) tail" by (cases tail) auto
          with a inv [of "c # tail" after] fits False
          show "utf8_well_formed ((pend @ [c]) @ tail @ after)"
            by (simp add: in_range_def)
        qed
        with False fits more show ?thesis by simp
      qed
    next
      case misfit: False
      from 2(6) [OF False misfit] have again: "utf8_well_formed (utf8_scan 0 128 191 [] (c # cs))"
        by simp
      have "utf8_scan needed lo hi pend (c # cs) = replacement @ utf8_scan 0 128 191 [] (c # cs)"
        using utf8_scan.simps(2) [of needed lo hi pend c cs] False misfit by (simp only: if_False)
      then show ?thesis by (simp only: wf_replacement again)
    qed
  qed
qed

lemma toString_well_formed: "utf8_well_formed (utf8_toString bytes)"
  unfolding utf8_toString_def by (rule scan_well_formed) simp

lemma scan_two:
  "in_range 0xC2 0xDF a \<Longrightarrow> in_range 0x80 0xBF b \<Longrightarrow>
   utf8_scan 0 0x80 0xBF [] (a # b # r) = a # b # utf8_scan 0 0x80 0xBF [] r"
  by (simp add: utf8_lead_def in_range_def)

lemma scan_three:
  "in_range 0xE0 0xEF a \<Longrightarrow>
   in_range (if of_char a = (0xE0 :: nat) then 0xA0 else 0x80)
     (if of_char a = (0xED :: nat) then 0x9F else 0xBF) b \<Longrightarrow>
   in_range 0x80 0xBF c \<Longrightarrow>
   utf8_scan 0 0x80 0xBF [] (a # b # c # r) = a # b # c # utf8_scan 0 0x80 0xBF [] r"
  by (simp add: utf8_lead_def in_range_def)

lemma scan_four:
  "in_range 0xF0 0xF4 a \<Longrightarrow>
   in_range (if of_char a = (0xF0 :: nat) then 0x90 else 0x80)
     (if of_char a = (0xF4 :: nat) then 0x8F else 0xBF) b \<Longrightarrow>
   in_range 0x80 0xBF c \<Longrightarrow> in_range 0x80 0xBF d \<Longrightarrow>
   utf8_scan 0 0x80 0xBF [] (a # b # c # d # r) = a # b # c # d # utf8_scan 0 0x80 0xBF [] r"
  by (simp add: utf8_lead_def in_range_def)

lemma scan_well_formed_id:
  "utf8_well_formed bytes \<Longrightarrow> utf8_scan 0 0x80 0xBF [] bytes = bytes"
proof (induction bytes rule: utf8_well_formed.induct)
  case 1
  show ?case by simp
next
  case (2 a after)
  show ?case
  proof (cases "(of_char a :: nat) < 128")
    case True
    with 2 show ?thesis by simp
  next
    case high: False
    show ?thesis
    proof (cases "in_range 194 223 a")
      case True
      with high 2(5) obtain b r where after: "after = b # r" and b: "in_range 128 191 b"
        and r: "utf8_well_formed r"
        by (cases after) auto
      from 2(2) [OF high True after] r have "utf8_scan 0 128 191 [] r = r" by simp
      with scan_two [OF _ _, of a b r] True b after show ?thesis by simp
    next
      case not2: False
      show ?thesis
      proof (cases "in_range 224 239 a")
        case True
        with high not2 2(5) obtain b c r where after: "after = b # c # r"
          and b: "in_range (if of_char a = (224 :: nat) then 160 else 128)
               (if of_char a = (237 :: nat) then 159 else 191) b"
          and c: "in_range 128 191 c" and r: "utf8_well_formed r"
          by (cases after; cases "tl after") auto
        from 2(3) [OF high not2 True, of b "c # r" c r] after r
        have "utf8_scan 0 128 191 [] r = r" by simp
        with scan_three [of a b c r] True b c after show ?thesis by simp
      next
        case not3: False
        with high not2 2(5) have four: "in_range 240 244 a"
          by (auto split: if_splits)
        with high not2 not3 2(5) obtain b c d r where after: "after = b # c # d # r"
          and b: "in_range (if of_char a = (240 :: nat) then 144 else 128)
               (if of_char a = (244 :: nat) then 143 else 191) b"
          and c: "in_range 128 191 c" and d: "in_range 128 191 d" and r: "utf8_well_formed r"
          by (cases after; cases "tl after"; cases "tl (tl after)") auto
        from 2(4) [OF high not2 not3 four, of b "c # d # r" c "d # r" d r] after r
        have "utf8_scan 0 128 191 [] r = r" by simp
        with scan_four [of a b c d r] four b c d after show ?thesis by simp
      qed
    qed
  qed
qed

lemma toString_well_formed_id: "utf8_well_formed bytes \<Longrightarrow> utf8_toString bytes = bytes"
  by (simp add: utf8_toString_def scan_well_formed_id)

lemma base64_hello: "utf8_toString (base64_decode ''aGVsbG8='') = ''hello''"
  by code_simp

text \<open>The decoder reads U+0161 (in UTF-8: C5 A1) as its low byte 0x61, the letter \<^verbatim>\<open>a\<close>.\<close>

lemma base64_low_byte:
  "utf8_toString (base64_decode (map char_of [0xC5, 0xA1 :: nat] @ ''GVsbG8='')) = ''hello''"
  by code_simp

text \<open>
  Claim C7: when the answer to the \<^verbatim>\<open>getContent\<close> call is a file whose \<^verbatim>\<open>content\<close> is the
  base64 encoding of some bytes (with the line breaks the upstream API puts into it),
  \<open>get_file_contents\<close> returns \<^verbatim>\<open>name\<close>, \<^verbatim>\<open>path\<close>, \<^verbatim>\<open>size\<close> and \<^verbatim>\<open>sha\<close> as answered, and as
  \<^verbatim>\<open>content\<close> the UTF-8 text of those bytes: always well-formed UTF-8, and the bytes
  themselves when they are well-formed UTF-8. The payload \<^verbatim>\<open>aGVsbG8=\<close> is the encoding of
  \<^verbatim>\<open>hello\<close> and decodes to it.
\<close>

theorem file_contents_decoded:
  assumes "\<not> nullish args"
    and "c (Repos_getContent (prop_of args ''owner'') (prop_of args ''repo'') (prop_of args ''path'')
           (js_or (prop_of args ''ref'') (JStr ''main''))) = Inr data"
    and "prop_of data ''type'' = JStr ''file''" and "prop_of data ''content'' = JStr encoded"
    and "filter (\<lambda>ch. ch \<noteq> CHR 0x0A \<and> ch \<noteq> CHR 0x0D) encoded = base64_encode bytes"
  shows "fst (get_file_contents rt (Some c) args) =
           Inr (JObj
             [(''name'', prop_of data ''name''),
              (''path'', prop_of data ''path''),
              (''size'', prop_of data ''size''),
              (''content'', JStr (utf8_toString bytes)),
              (''sha'', prop_of data ''sha'')]) \<and>
         utf8_well_formed (utf8_toString bytes) \<and>
         (utf8_well_formed bytes \<longrightarrow> utf8_toString bytes = bytes) \<and>
         base64_encode ''hello'' = ''aGVsbG8='' \<and>
         utf8_toString (base64_decode ''aGVsbG8='') = ''hello''"
proof -
  from assms(3) have data: "\<not> nullish data" by (cases data) auto
  have decoded: "base64_decode encoded = bytes"
    using assms(5) by (rule decode_encode)
  have "fst (get_file_contents rt (Some c) args) =
      Inr (JObj
        [(''name'', prop_of data ''name''),
         (''path'', prop_of data ''path''),
         (''size'', prop_of data ''size''),
         (''content'', JStr (utf8_toString bytes)),
         (''sha'', prop_of data ''sha'')])"
    using assms(1-4) data
    by (simp add: get_file_contents_def try_catch_before_call try_catch_await_call rest_def
        get_prop_value and_then_Inr try_catch_value buffer_from_base64_def object_def decoded)
  moreover have "base64_encode ''hello'' = ''aGVsbG8=''"
    by code_simp
  ultimately show ?thesis
    using toString_well_formed [of bytes] toString_well_formed_id [of bytes] base64_hello
    by blast
qed

theorem file_contents_decoded_witness:
  "fst (get_file_contents sample_runtime (Some (answering sample_file))
     (JObj [(''owner'', JStr ''octocat''), (''repo'', JStr ''Hello-World''),
            (''path'', JStr ''docs/hello.txt'')])) =
   Inr (JObj [(''name'', JStr ''hello.txt''), (''path'', JStr ''docs/hello.txt''), (''size'', JNum 5),
              (''content'', JStr ''hello''), (''sha'', JStr ''b6fc4c62'')])"
proof -
  let ?a = "JObj [(''owner'', JStr ''octocat''), (''repo'', JStr ''Hello-World''),
            (''path'', JStr ''docs/hello.txt'')]"
  have args: "\<not> nullish ?a" by simp
  have answered: "answering sample_file
      (Repos_getContent (prop_of ?a ''owner'') (prop_of ?a ''repo'') (prop_of ?a ''path'')
         (js_or (prop_of ?a ''ref'') (JStr ''main''))) = Inr sample_file"
    by (simp add: answering_def)
  have is_file: "prop_of sample_file ''type'' = JStr ''file''"
    and content: "prop_of sample_file ''content'' = JStr ''aGVsbG8=''"
    by (simp_all add: sample_file_def)
  have encoded: "filter (\<lambda>ch. ch \<noteq> CHR 0x0A \<and> ch \<noteq> CHR 0x0D) ''aGVsbG8='' =
      base64_encode ''hello''"
    by code_simp
  have hello: "utf8_well_formed ''hello''"
    by code_simp
  from file_contents_decoded [of ?a "answering sample_file" sample_file "''aGVsbG8=''"
      "''hello''" sample_runtime, OF args answered is_file content encoded] hello
  show ?thesis by (simp add: sample_file_def)
qed

section \<open>The search query\<close>

lemma search_calls:
  "snd (try_catch
     (before_call m (\<lambda>query.
      before_call (rest rt octokit) (\<lambda>c. await_call c (Search_code (JStr query) (JNum 30)) k)))) = [] \<or>
   (\<exists>query. snd (try_catch
     (before_call m (\<lambda>query.
      before_call (rest rt octokit) (\<lambda>c. await_call c (Search_code (JStr query) (JNum 30)) k)))) =
       [Search_code (JStr query) (JNum 30)])"
  by (cases m; cases octokit) (auto simp: run_simps split: sum.splits)

text \<open>
  Claim C8: when \<^verbatim>\<open>query\<close>, \<^verbatim>\<open>owner\<close> and \<^verbatim>\<open>repo\<close> are strings, \<open>search_files\<close> and
  \<open>search_code\<close> both issue one code-search call, whose \<^verbatim>\<open>q\<close> is the query followed by
  \<^verbatim>\<open> repo:<owner>/<repo>\<close> and whose page size is 30, whatever else the arguments hold.
  And for any arguments at all, a call either of them issues is a code search with page
  size 30.
\<close>

theorem search_query_scoped:
  assumes "prop_of args ''query'' = JStr q" and "prop_of args ''owner'' = JStr owner"
    and "prop_of args ''repo'' = JStr repo"
  shows "snd (search_files rt (Some c) args) =
           [Search_code (JStr (q @ '' repo:'' @ owner @ ''/'' @ repo)) (JNum 30)] \<and>
         snd (search_code rt (Some c) args) =
           [Search_code (JStr (q @ '' repo:'' @ owner @ ''/'' @ repo)) (JNum 30)] \<and>
         (snd (search_files rt octokit other) = [] \<or>
          (\<exists>query. snd (search_files rt octokit other) = [Search_code (JStr query) (JNum 30)])) \<and>
         (snd (search_code rt octokit other) = [] \<or>
          (\<exists>query. snd (search_code rt octokit other) = [Search_code (JStr query) (JNum 30)]))"
proof -
  from assms(1) have "\<not> nullish args" by (cases args) auto
  with assms have "search_query rt args = Inr (q @ '' repo:'' @ owner @ ''/'' @ repo)"
    by (simp add: search_query_def get_prop_value and_then_Inr)
  then have "snd (search_files rt (Some c) args) =
      [Search_code (JStr (q @ '' repo:'' @ owner @ ''/'' @ repo)) (JNum 30)]"
    and "snd (search_code rt (Some c) args) =
      [Search_code (JStr (q @ '' repo:'' @ owner @ ''/'' @ repo)) (JNum 30)]"
    by (simp_all add: search_files_def search_code_def run_simps split: sum.splits)
  moreover have "snd (search_files rt octokit other) = [] \<or>
      (\<exists>query. snd (search_files rt octokit other) = [Search_code (JStr query) (JNum 30)])"
    unfolding search_files_def by (rule search_calls)
  moreover have "snd (search_code rt octokit other) = [] \<or>
      (\<exists>query. snd (search_code rt octokit other) = [Search_code (JStr query) (JNum 30)])"
    unfolding search_code_def by (rule search_calls)
  ultimately show ?thesis by blast
qed

theorem search_query_scoped_witness:
  "snd (search_files sample_runtime (Some (answering JNull))
          (JObj [(''query'', JStr ''filename:README''), (''owner'', JStr ''octocat''),
                 (''repo'', JStr ''Hello-World''), (''per_page'', JNum 5)])) =
     [Search_code (JStr ''filename:README repo:octocat/Hello-World'') (JNum 30)] \<and>
   snd (search_code sample_runtime (Some (answering JNull))
          (JObj [(''query'', JStr ''filename:README''), (''owner'', JStr ''octocat''),
                 (''repo'', JStr ''Hello-World''), (''per_page'', JNum 5)])) =
     [Search_code (JStr ''filename:README repo:octocat/Hello-World'') (JNum 30)]"
  using search_query_scoped [of
      "JObj [(''query'', JStr ''filename:README''), (''owner'', JStr ''octocat''),
             (''repo'', JStr ''Hello-World''), (''per_page'', JNum 5)]"
      "''filename:README''" "''octocat''" "''Hello-World''" sample_runtime "answering JNull"]
  by simp

section \<open>Listing issues\<close>

lemma each_Inr: "(\<And>x. x \<in> set xs \<Longrightarrow> f x = Inr (g x)) \<Longrightarrow> each f xs = Inr (map g xs)"
  by (induction xs) (simp_all add: and_then_def)

lemma js_map_array:
  "(\<And>x. x \<in> set xs \<Longrightarrow> f x = Inr (g x)) \<Longrightarrow> js_map rt expr (JArr xs) f = Inr (JArr (map g xs))"
  by (simp add: js_map_def each_Inr and_then_def)

lemma js_map_elements:
  assumes "is_array v" and "\<And>x. x \<in> set (elements v) \<Longrightarrow> f x = Inr (g x)"
  shows "js_map rt expr v f = Inr (JArr (map g (elements v)))"
  using assms by (cases v) (simp_all add: js_map_array)

lemma reshape_issue_shaped:
  assumes "issue_shaped issue"
  shows "reshape_issue rt issue = Inr (issue_summary issue)"
proof -
  have labels:
    "js_map rt ''issue.labels'' (prop_of issue ''labels'') (\<lambda>label. get_prop rt label ''name'') =
      Inr (JArr (map (\<lambda>label. prop_of label ''name'') (elements (prop_of issue ''labels''))))"
    using assms by (intro js_map_elements) (auto simp: issue_shaped_def get_prop_def list_all_iff)
  have assignees:
    "js_map rt ''issue.assignees'' (prop_of issue ''assignees'')
        (\<lambda>assignee. get_prop rt assignee ''login'') =
      Inr (JArr (map (\<lambda>assignee. prop_of assignee ''login'')
        (elements (prop_of issue ''assignees''))))"
    using assms by (intro js_map_elements) (auto simp: issue_shaped_def get_prop_def list_all_iff)
  from assms have "\<not> nullish issue" and "\<not> nullish (prop_of issue ''user'')"
    by (simp_all add: issue_shaped_def)
  then show ?thesis
    by (simp add: reshape_issue_def issue_summary_def object_def and_then_Inr get_prop_value
        labels assignees)
qed

lemma list_issues_calls:
  "\<not> nullish args \<Longrightarrow>
   snd (list_issues rt (Some c) args) =
     [Issues_listForRepo (prop_of args ''owner'') (prop_of args ''repo'')
        (js_or (prop_of args ''state'') (JStr ''open''))
        (js_or (prop_of args ''per_page'') (JNum 30))]"
  by (simp add: list_issues_def run_simps get_prop_value split: sum.splits)

lemma list_issues_answered:
  assumes "snd (list_issues rt (Some c) args) = [req]" and "c req = Inr (JArr issues)"
    and "list_all issue_shaped issues"
  shows "fst (list_issues rt (Some c) args) = Inr (JArr (map issue_summary issues))"
proof -
  have mapped: "js_map rt ''data'' (JArr issues) (reshape_issue rt) =
      Inr (JArr (map issue_summary issues))"
    using assms(3) by (intro js_map_array) (simp add: reshape_issue_shaped list_all_iff)
  from assms(1) have args: "\<not> nullish args"
    by (auto simp: list_issues_def run_simps get_prop_def)
  from assms(1) list_issues_calls [OF args, of rt c]
  have "c (Issues_listForRepo (prop_of args ''owner'') (prop_of args ''repo'')
        (js_or (prop_of args ''state'') (JStr ''open''))
        (js_or (prop_of args ''per_page'') (JNum 30))) = Inr (JArr issues)"
    using assms(2) by simp
  with args mapped show ?thesis
    by (simp add: list_issues_def run_simps get_prop_value try_catch_value)
qed

text \<open>
  Claim C9: \<open>list_issues\<close> issues its call with \<^verbatim>\<open>state\<close> \<^verbatim>\<open>open\<close> when the arguments have no
  \<^verbatim>\<open>state\<close>, and with \<^verbatim>\<open>per_page\<close> 30 when they have no \<^verbatim>\<open>per_page\<close>. When the call is
  answered with an array of issues, it returns one element per issue, in order, whose
  \<^verbatim>\<open>labels\<close> is the list of the names of the issue's labels and whose \<^verbatim>\<open>assignees\<close> is the
  list of the logins of the issue's assignees, each in the issue's order (see
  \<open>issue_summary\<close>).
\<close>

theorem list_issues_defaults_and_shape:
  assumes "\<not> nullish args"
  shows "(\<exists>state per_page.
            snd (list_issues rt (Some c) args) =
              [Issues_listForRepo (prop_of args ''owner'') (prop_of args ''repo'') state per_page] \<and>
            (prop_of args ''state'' = JUndefined \<longrightarrow> state = JStr ''open'') \<and>
            (prop_of args ''per_page'' = JUndefined \<longrightarrow> per_page = JNum 30)) \<and>
         (\<forall>req issues.
            snd (list_issues rt (Some c) args) = [req] \<and> c req = Inr (JArr issues) \<and>
            list_all issue_shaped issues \<longrightarrow>
            fst (list_issues rt (Some c) args) = Inr (JArr (map issue_summary issues)) \<and>
            (\<forall>i < length issues.
               prop_of (map issue_summary issues ! i) ''labels'' =
                 JArr (map (\<lambda>label. prop_of label ''name'')
                   (elements (prop_of (issues ! i) ''labels''))) \<and>
               prop_of (map issue_summary issues ! i) ''assignees'' =
                 JArr (map (\<lambda>assignee. prop_of assignee ''login'')
                   (elements (prop_of (issues ! i) ''assignees'')))))"
proof -
  have "snd (list_issues rt (Some c) args) =
      [Issues_listForRepo (prop_of args ''owner'') (prop_of args ''repo'')
         (js_or (prop_of args ''state'') (JStr ''open''))
         (js_or (prop_of args ''per_page'') (JNum 30))]"
    using assms by (rule list_issues_calls)
  moreover have "prop_of args ''state'' = JUndefined \<longrightarrow>
      js_or (prop_of args ''state'') (JStr ''open'') = JStr ''open''"
    by (simp add: js_or_def)
  moreover have "prop_of args ''per_page'' = JUndefined \<longrightarrow>
      js_or (prop_of args ''per_page'') (JNum 30) = JNum 30"
    by (simp add: js_or_def)
  ultimately have call: "\<exists>state per_page.
      snd (list_issues rt (Some c) args) =
        [Issues_listForRepo (prop_of args ''owner'') (prop_of args ''repo'') state per_page] \<and>
      (prop_of args ''state'' = JUndefined \<longrightarrow> state = JStr ''open'') \<and>
      (prop_of args ''per_page'' = JUndefined \<longrightarrow> per_page = JNum 30)"
    by blast
  have fields: "prop_of (map issue_summary issues ! i) ''labels'' =
        JArr (map (\<lambda>label. prop_of label ''name'') (elements (prop_of (issues ! i) ''labels''))) \<and>
      prop_of (map issue_summary issues ! i) ''assignees'' =
        JArr (map (\<lambda>assignee. prop_of assignee ''login'')
          (elements (prop_of (issues ! i) ''assignees'')))"
    if "i < length issues" for issues i
    using that by (simp add: issue_summary_def)
  from call list_issues_answered [of rt c args] fields show ?thesis
    by blast
qed

theorem list_issues_defaults_and_shape_witness:
  "list_issues sample_runtime (Some (answering (JArr [sample_issue])))
     (JObj [(''owner'', JStr ''octocat''), (''repo'', JStr ''Hello-World'')]) =
   (Inr (JArr [JObj
      [(''number'', JNum 7), (''title'', JStr ''Crash on start''), (''body'', JNull),
       (''state'', JStr ''open''), (''author'', JStr ''alice''),
       (''created_at'', JStr ''2024-01-01T00:00:00Z''),
       (''updated_at'', JStr ''2024-01-02T00:00:00Z''),
       (''labels'', JArr [JStr ''bug'', JStr ''ui'']),
       (''assignees'', JArr [JStr ''bob''])]]),
    [Issues_listForRepo (JStr ''octocat'') (JStr ''Hello-World'') (JStr ''open'') (JNum 30)])"
proof -
  let ?a = "JObj [(''owner'', JStr ''octocat''), (''repo'', JStr ''Hello-World'')]"
  let ?c = "answering (JArr [sample_issue])"
  let ?r = "Issues_listForRepo (JStr ''octocat'') (JStr ''Hello-World'') (JStr ''open'') (JNum 30)"
  have args: "\<not> nullish ?a" by simp
  have shaped: "list_all issue_shaped [sample_issue]"
    by (simp add: issue_shaped_def sample_issue_def)
  have answered: "?c ?r = Inr (JArr [sample_issue])"
    by (simp add: answering_def)
  from list_issues_defaults_and_shape [OF args, of sample_runtime ?c]
  have calls: "snd (list_issues sample_runtime (Some ?c) ?a) = [?r]"
    by auto
  with list_issues_defaults_and_shape [OF args, of sample_runtime ?c] answered shaped
  have "fst (list_issues sample_runtime (Some ?c) ?a) =
      Inr (JArr (map issue_summary [sample_issue]))"
    by blast
  with calls show ?thesis
    by (simp add: prod_eq_iff issue_summary_def sample_issue_def)
qed

end
